theory Spec2Isabelle
  imports Complex_Main
begin

section \<open>Data model of simularity\_set.py\<close>

text \<open>
  Python exceptions that the modelled code can raise: the builtin \<open>min\<close>/\<open>max\<close> of an
  empty sequence and a negative \<open>__len__\<close> raise \<open>ValueError\<close>, \<open>set.remove\<close> of an
  absent element raises \<open>KeyError\<close>, \<open>/\<close> by zero raises \<open>ZeroDivisionError\<close>, and
  \<open>/\<close> on integers whose quotient is too large for a float raises \<open>OverflowError\<close>.
\<close>

datatype error = ValueError | KeyError | ZeroDivisionError | OverflowError

text \<open>
  The \<open>region\<close> attribute of a bounding box is whatever the caller passed: a region label,
  or the tuple \<open>(box_a.region, box_b.region)\<close> built by \<open>combine_bounding_boxes\<close>.
\<close>

datatype region_tag = Label int | Tuple region_tag region_tag

record bounding_box =
  region :: region_tag
  row_start :: int
  col_start :: int
  height :: int
  width :: int

definition x0 :: "bounding_box \<Rightarrow> int" where
  "x0 b = col_start b"

definition y0 :: "bounding_box \<Rightarrow> int" where
  "y0 b = row_start b"

text \<open>\<open>bounding_box.__len__\<close>: the area of the box.\<close>

definition bbox_len :: "bounding_box \<Rightarrow> int" where
  "bbox_len b = height b * width b"

text \<open>The builtin \<open>len(box)\<close>: Python refuses a negative \<open>__len__\<close>.\<close>

definition py_len :: "bounding_box \<Rightarrow> error + int" where
  "py_len b = (if bbox_len b < 0 then Inl ValueError else Inr (bbox_len b))"

text \<open>
  Modelled from the spec: the disjoint-set module is not part of the sources. Its \<open>find\<close>
  returns a representative node that carries a \<open>size\<close> (pixel count); where the code
  compares the label image with such a node (\<open>region_image == a\<close>) the node stands for its
  region label, here the field \<open>node_label\<close>.
\<close>

record node =
  node_label :: int
  node_size :: int

text \<open>
  The modules \<open>histogram_utils\<close> and \<open>cv2\<close> are not part of the sources: the functions
  the code calls are parameters, over an arbitrary type of colour images and of histograms.
\<close>

datatype adaptive_method = ADAPTIVE_THRESH_MEAN_C
datatype threshold_type = THRESH_BINARY

record ('img, 'hist) libs =
  get_normalized_histogram ::
    "'img \<Rightarrow> int list \<Rightarrow> int list \<Rightarrow> int list \<Rightarrow> int list list \<Rightarrow> 'hist"
  compare_histograms :: "'hist \<Rightarrow> 'hist \<Rightarrow> string \<Rightarrow> real"
  adaptiveThreshold ::
    "int list list \<Rightarrow> int \<Rightarrow> adaptive_method \<Rightarrow> threshold_type \<Rightarrow> int \<Rightarrow> int \<Rightarrow> int list list"

text \<open>
  The attributes of a \<open>simularity_set\<close> object. The label image is a two-dimensional
  array, a list of rows; \<open>disjoint_set\<close> is the \<open>find\<close> of the handle passed in. The
  attributes \<open>height\<close>, \<open>width\<close> and \<open>bounding_box\<close> are named \<open>img_height\<close>,
  \<open>img_width\<close> and \<open>bounding_box_dict\<close> to keep them apart from the box's fields.
\<close>

record 'img simularity_set =
  region_image :: "int list list"
  region_set :: "int set"
  sim_set :: "(int \<times> int) set"
  image :: 'img
  disjoint_set :: "int \<Rightarrow> node"
  img_height :: nat
  img_width :: nat
  image_size :: nat
  bounding_box_dict :: "int \<rightharpoonup> bounding_box"

text \<open>\<open>region_image.shape\<close> of a two-dimensional array, and what makes a list of rows one.\<close>

definition shape :: "int list list \<Rightarrow> nat \<times> nat" where
  "shape a = (length a, (case a of [] \<Rightarrow> 0 | r # _ \<Rightarrow> length r))"

definition rectangular :: "int list list \<Rightarrow> bool" where
  "rectangular a = list_all (\<lambda>r. length r = snd (shape a)) a"

section \<open>Pair lifecycle\<close>

definition add_set :: "'img simularity_set \<Rightarrow> int \<Rightarrow> int \<Rightarrow> 'img simularity_set" where
  "add_set ss region_a region_b =
     (if region_a \<noteq> region_b then
        (let ss1 = (if (region_b, region_a) \<notin> sim_set ss
                    then ss\<lparr>sim_set := insert (region_a, region_b) (sim_set ss)\<rparr> else ss);
             ss2 = ss1\<lparr>region_set := insert region_a (region_set ss1)\<rparr>
         in ss2\<lparr>region_set := insert region_b (region_set ss2)\<rparr>)
      else ss)"

definition get_sim_set :: "'img simularity_set \<Rightarrow> (int \<times> int) set" where
  "get_sim_set ss = sim_set ss"

definition get_regions :: "'img simularity_set \<Rightarrow> int set" where
  "get_regions ss = region_set ss"

text \<open>\<open>simularity_set.__len__\<close>.\<close>

definition len :: "'img simularity_set \<Rightarrow> nat" where
  "len ss = card (region_set ss)"

text \<open>\<open>x in item\<close> for a two-element tuple.\<close>

definition in_tuple :: "int \<Rightarrow> int \<times> int \<Rightarrow> bool" where
  "in_tuple x item = (x = fst item \<or> x = snd item)"

text \<open>\<open>set.remove\<close> raises \<open>KeyError\<close> when the element is absent.\<close>

definition set_remove :: "'a set \<Rightarrow> 'a \<Rightarrow> error + 'a set" where
  "set_remove A x = (if x \<in> A then Inr (A - {x}) else Inl KeyError)"

text \<open>
  \<open>remove_set\<close> mutates the object in place and returns nothing; the model returns the
  exception raised, if any, together with the object as the call leaves it (an exception
  in the middle keeps the mutations made before it).
\<close>

definition remove_if_unused ::
  "'img simularity_set \<Rightarrow> int \<Rightarrow> error option \<times> 'img simularity_set" where
  "remove_if_unused ss r =
     (if {item \<in> sim_set ss. in_tuple r item} = {} then
        (case set_remove (region_set ss) r of
           Inl e \<Rightarrow> (Some e, ss)
         | Inr rs \<Rightarrow> (None, ss\<lparr>region_set := rs\<rparr>))
      else (None, ss))"

definition remove_set ::
  "'img simularity_set \<Rightarrow> int \<times> int \<Rightarrow> error option \<times> 'img simularity_set" where
  "remove_set ss s =
     (let ss1 = (if s \<in> sim_set ss then ss\<lparr>sim_set := sim_set ss - {s}\<rparr> else ss);
          ss2 = (if (snd s, fst s) \<in> sim_set ss1
                 then ss1\<lparr>sim_set := sim_set ss1 - {(snd s, fst s)}\<rparr> else ss1)
      in case remove_if_unused ss2 (fst s) of
           (Some e, ss3) \<Rightarrow> (Some e, ss3)
         | (None, ss3) \<Rightarrow> remove_if_unused ss3 (snd s))"

section \<open>Geometry queries\<close>

text \<open>
  \<open>np.transpose((region_image == region).nonzero())\<close>: the \<open>[row, col]\<close> positions of the
  matching pixels, in row-major order.
\<close>

definition get_indices_of_region :: "'img simularity_set \<Rightarrow> int \<Rightarrow> (nat \<times> nat) list" where
  "get_indices_of_region ss r =
     concat (map (\<lambda>row. map (\<lambda>col. (row, col))
                    (filter (\<lambda>col. region_image ss ! row ! col = r)
                       [0..<length (region_image ss ! row)]))
               [0..<length (region_image ss)])"

text \<open>The builtins \<open>min\<close> and \<open>max\<close> of a sequence.\<close>

fun py_min :: "int list \<Rightarrow> error + int" where
  "py_min [] = Inl ValueError"
| "py_min (x # xs) = Inr (fold min xs x)"

fun py_max :: "int list \<Rightarrow> error + int" where
  "py_max [] = Inl ValueError"
| "py_max (x # xs) = Inr (fold max xs x)"

definition create_bounding_box :: "'img simularity_set \<Rightarrow> int \<Rightarrow> error + bounding_box" where
  "create_bounding_box ss r =
     (let indices = get_indices_of_region ss r;
          rows = map (\<lambda>p. int (fst p)) indices;
          cols = map (\<lambda>p. int (snd p)) indices
      in case py_min rows of Inl e \<Rightarrow> Inl e | Inr row_start' \<Rightarrow>
         (case py_min cols of Inl e \<Rightarrow> Inl e | Inr col_start' \<Rightarrow>
         (case py_max rows of Inl e \<Rightarrow> Inl e | Inr max_row \<Rightarrow>
         (case py_max cols of Inl e \<Rightarrow> Inl e | Inr max_col \<Rightarrow>
            Inr \<lparr>region = Label r, row_start = row_start', col_start = col_start',
                 height = max_row - row_start', width = max_col - col_start'\<rparr>))))"

definition combine_bounding_boxes :: "bounding_box \<Rightarrow> bounding_box \<Rightarrow> bounding_box" where
  "combine_bounding_boxes box_a box_b =
     (let row_start' = min (row_start box_a) (row_start box_b);
          col_start' = min (col_start box_a) (col_start box_b);
          max_row_a = row_start box_a + height box_a;
          max_col_a = col_start box_a + width box_a;
          max_row_b = row_start box_b + height box_b;
          max_col_b = row_start box_b + width box_b
      in \<lparr>region = Tuple (region box_a) (region box_b),
          row_start = row_start', col_start = col_start',
          height = max max_row_a max_row_b - row_start',
          width = max max_col_a max_col_b - col_start'\<rparr>)"

definition get_region_mask ::
  "('img, 'hist) libs \<Rightarrow> 'img simularity_set \<Rightarrow> int \<Rightarrow> int list list" where
  "get_region_mask lib ss r =
     (let mask = map (map (\<lambda>v. if v = r then (1::int) else 0)) (region_image ss);
          mask_im = map (map (\<lambda>v. (v * 255) mod 256)) mask
      in adaptiveThreshold lib mask_im 255 ADAPTIVE_THRESH_MEAN_C THRESH_BINARY 3 0)"

definition calculate_color_hist_of_region ::
  "('img, 'hist) libs \<Rightarrow> 'img simularity_set \<Rightarrow> int \<Rightarrow> int list \<Rightarrow> int list \<Rightarrow> 'hist" where
  "calculate_color_hist_of_region lib ss r bins ranges =
     (let mask = get_region_mask lib ss r;
          channels = [0, 1, 2]
      in get_normalized_histogram lib (image ss) channels bins ranges mask)"

section \<open>Construction\<close>

text \<open>The body of the two nested loops of \<open>__init__\<close>, for one pixel.\<close>

definition scan_pixel :: "'img simularity_set \<Rightarrow> nat \<Rightarrow> nat \<Rightarrow> 'img simularity_set" where
  "scan_pixel ss row col =
     (let current_region = region_image ss ! row ! col;
          ss1 = (if col + 1 < img_width ss
                 then add_set ss current_region (region_image ss ! row ! (col + 1)) else ss);
          ss2 = (if row + 1 < img_height ss1
                 then add_set ss1 current_region (region_image ss1 ! (row + 1) ! col) else ss1);
          ss3 = (if col + 1 < img_width ss2 \<and> row + 1 < img_height ss2
                 then add_set ss2 current_region (region_image ss2 ! (row + 1) ! (col + 1))
                 else ss2)
      in if col + 1 < img_width ss3 \<and> row > 0
         then add_set ss3 current_region (region_image ss3 ! (row - 1) ! (col + 1))
         else ss3)"

definition find_neighbors :: "'img simularity_set \<Rightarrow> 'img simularity_set" where
  "find_neighbors ss =
     fold (\<lambda>row. fold (\<lambda>col s. scan_pixel s row col) [0..<img_width ss])
       [0..<img_height ss] ss"

text \<open>
  \<open>simularity_set.__init__\<close>. The last loop fills the dictionary of bounding boxes, one
  for each region of the region set; an exception of \<open>create_bounding_box\<close> ends the
  construction.
\<close>

definition simularity_set_init ::
  "int list list \<Rightarrow> 'img \<Rightarrow> (int \<Rightarrow> node) \<Rightarrow> error + 'img simularity_set" where
  "simularity_set_init region_image' image' disjoint_set' =
     (let ss0 = \<lparr>region_image = region_image', region_set = {}, sim_set = {},
                 image = image', disjoint_set = disjoint_set',
                 img_height = fst (shape region_image'), img_width = snd (shape region_image'),
                 image_size = fst (shape region_image') * snd (shape region_image'),
                 bounding_box_dict = Map.empty\<rparr>;
          ss1 = find_neighbors ss0
      in if \<exists>r \<in> region_set ss1. isl (create_bounding_box ss1 r) then Inl ValueError
         else Inr (ss1\<lparr>bounding_box_dict :=
                     (\<lambda>r. if r \<in> region_set ss1
                          then Some (projr (create_bounding_box ss1 r)) else None)\<rparr>))"

section \<open>Similarity metrics\<close>

subsection \<open>Binary64 arithmetic\<close>

text \<open>
  A Python float is an IEEE 754 binary64 number, modelled as the real number it denotes.
  \<open>round64\<close> rounds a real number to the nearest binary64 value, ties to the even
  significand: the spacing of the values around \<open>x\<close> is \<open>ulp x\<close>, 2 to the power of
  the binary exponent of \<open>x\<close> less 52, and the exponent is no smaller than -1022 (below
  it lie the subnormal numbers, all spaced 2 to the power of -1074). The exponent has no
  upper bound here; the largest finite float is \<open>DBL_MAX\<close>. The lemma
  \<open>round64_eval\<close> below computes \<open>round64 x\<close> from the binary exponent of \<open>x\<close>.
\<close>

definition round_half_even :: "real \<Rightarrow> int" where
  "round_half_even y =
     (if y - of_int \<lfloor>y\<rfloor> < 1 / 2 then \<lfloor>y\<rfloor>
      else if 1 / 2 < y - of_int \<lfloor>y\<rfloor> then \<lfloor>y\<rfloor> + 1
      else if even \<lfloor>y\<rfloor> then \<lfloor>y\<rfloor> else \<lfloor>y\<rfloor> + 1)"

definition binade :: "real \<Rightarrow> int" where
  "binade x = max \<lfloor>log 2 \<bar>x\<bar>\<rfloor> (- 1022)"

definition ulp :: "real \<Rightarrow> real" where
  "ulp x = 2 powi (binade x - 52)"

definition round64 :: "real \<Rightarrow> real" where
  "round64 x = (if x = 0 then 0 else of_int (round_half_even (x / ulp x)) * ulp x)"

definition DBL_MAX :: real where
  "DBL_MAX = (2 ^ 53 - 1) * 2 ^ 971"


text \<open>
  The difference of two floats, correctly rounded. (A difference beyond \<open>DBL_MAX\<close> would
  be an infinity; \<open>1 - q\<close> for a finite float \<open>q\<close> is never one, see
  \<open>float_sub_one_finite\<close> below.)
\<close>

definition float_sub :: "real \<Rightarrow> real \<Rightarrow> real" where
  "float_sub x y = round64 (x - y)"

subsection \<open>The metrics\<close>


text \<open>
  \<open>s_fill\<close>: here the true division and the subtraction are taken exactly, over the real
  numbers; the rounding of the two operations to binary64 is not modelled.
\<close>

definition s_fill :: "'img simularity_set \<Rightarrow> int \<Rightarrow> int \<Rightarrow> error + real" where
  "s_fill ss region_a region_b =
     (let a = disjoint_set ss region_a;
          b = disjoint_set ss region_b
      in case create_bounding_box ss (node_label a) of Inl e \<Rightarrow> Inl e | Inr bbox_a \<Rightarrow>
         (case create_bounding_box ss (node_label b) of Inl e \<Rightarrow> Inl e | Inr bbox_b \<Rightarrow>
         (case py_len (combine_bounding_boxes bbox_a bbox_b) of Inl e \<Rightarrow> Inl e | Inr n \<Rightarrow>
            if image_size ss = 0 then Inl ZeroDivisionError
            else Inr (1 - real_of_int (n - node_size a - node_size b) / real (image_size ss)))))"

definition s_color ::
  "('img, 'hist) libs \<Rightarrow> 'img simularity_set \<Rightarrow> int \<Rightarrow> int \<Rightarrow> string \<Rightarrow> real" where
  "s_color lib ss region_a region_b method_name =
     (let a = disjoint_set ss region_a;
          b = disjoint_set ss region_b;
          bins = [0, 1, 2];
          ranges = [0, 256, 0, 256, 0, 256];
          hist_a = calculate_color_hist_of_region lib ss (node_label a) bins ranges;
          hist_b = calculate_color_hist_of_region lib ss (node_label b) bins ranges
      in compare_histograms lib hist_a hist_b method_name)"

section \<open>Notions of the specification\<close>

text \<open>
  The union of two boxes as the specification words it: the origin is the component-wise
  minimum of the two origins, the extent the component-wise maximum of origin + extent
  over both boxes, minus the new origin.
\<close>

definition union_spec :: "bounding_box \<Rightarrow> bounding_box \<Rightarrow> bounding_box" where
  "union_spec box_a box_b =
     \<lparr>region = Tuple (region box_a) (region box_b),
      row_start = min (row_start box_a) (row_start box_b),
      col_start = min (col_start box_a) (col_start box_b),
      height = max (row_start box_a + height box_a) (row_start box_b + height box_b)
                 - min (row_start box_a) (row_start box_b),
      width = max (col_start box_a + width box_a) (col_start box_b + width box_b)
                 - min (col_start box_a) (col_start box_b)\<rparr>"

text \<open>
  A box contains another: origin no larger, origin + extent no smaller, on both axes.
\<close>

definition contains_box :: "bounding_box \<Rightarrow> bounding_box \<Rightarrow> bool" where
  "contains_box outer inner =
     (row_start outer \<le> row_start inner \<and> col_start outer \<le> col_start inner \<and>
      row_start inner + height inner \<le> row_start outer + height outer \<and>
      col_start inner + width inner \<le> col_start outer + width outer)"


text \<open>
  The fill similarity as the specification words it: the area is taken of the union above
  of the two representatives' bounding boxes.
\<close>

definition s_fill_spec :: "'img simularity_set \<Rightarrow> int \<Rightarrow> int \<Rightarrow> real" where
  "s_fill_spec ss region_a region_b =
     (let a = disjoint_set ss region_a;
          b = disjoint_set ss region_b;
          bbox_a = projr (create_bounding_box ss (node_label a));
          bbox_b = projr (create_bounding_box ss (node_label b))
      in 1 - real_of_int (bbox_len (union_spec bbox_a bbox_b) - node_size a - node_size b)
             / real (image_size ss))"

text \<open>
  Two distinct pixel positions are 8-adjacent when they differ by at most one row and at
  most one column; two labels touch in an image when some pixel of the first is
  8-adjacent to some pixel of the second.
\<close>

definition adjacent8 :: "nat \<times> nat \<Rightarrow> nat \<times> nat \<Rightarrow> bool" where
  "adjacent8 p q =
     (p \<noteq> q \<and> fst p \<le> fst q + 1 \<and> fst q \<le> fst p + 1 \<and> snd p \<le> snd q + 1 \<and> snd q \<le> snd p + 1)"

definition touching :: "int list list \<Rightarrow> int \<Rightarrow> int \<Rightarrow> bool" where
  "touching img a b =
     (\<exists>r1 \<in> {0..<fst (shape img)}. \<exists>c1 \<in> {0..<snd (shape img)}.
      \<exists>r2 \<in> {0..<fst (shape img)}. \<exists>c2 \<in> {0..<snd (shape img)}.
        adjacent8 (r1, c1) (r2, c2) \<and> img ! r1 ! c1 = a \<and> img ! r2 ! c2 = b)"

text \<open>
  The objects that construction followed by any calls of \<open>add_set\<close> and
  \<open>remove_set\<close> can produce; a call of \<open>remove_set\<close> that raises leaves the object as
  the model returns it.
\<close>

inductive reachable :: "'img simularity_set \<Rightarrow> bool" where
  constructed: "simularity_set_init img im ds = Inr ss \<Longrightarrow> reachable ss"
| added: "reachable ss \<Longrightarrow> reachable (add_set ss a b)"
| removed: "reachable ss \<Longrightarrow> reachable (snd (remove_set ss s))"

section \<open>Auxiliary definitions\<close>

text \<open>
  The object as \<open>__init__\<close> has it before the loops run, and after them.
\<close>

definition blank :: "int list list \<Rightarrow> 'img \<Rightarrow> (int \<Rightarrow> node) \<Rightarrow> 'img simularity_set" where
  "blank img im ds =
     \<lparr>region_image = img, region_set = {}, sim_set = {}, image = im, disjoint_set = ds,
      img_height = fst (shape img), img_width = snd (shape img),
      image_size = fst (shape img) * snd (shape img), bounding_box_dict = Map.empty\<rparr>"

definition scanned :: "int list list \<Rightarrow> 'img \<Rightarrow> (int \<Rightarrow> node) \<Rightarrow> 'img simularity_set" where
  "scanned img im ds = find_neighbors (blank img im ds)"

text \<open>
  The pairs that the loop body hands to \<open>add_set\<close> for one pixel, in order, and for
  the whole image; \<open>add_all\<close> adds a list of pairs in order.
\<close>

definition neighbors :: "int list list \<Rightarrow> nat \<Rightarrow> nat \<Rightarrow> nat \<Rightarrow> nat \<Rightarrow> (int \<times> int) list" where
  "neighbors img h w row col =
     (if col + 1 < w then [(img ! row ! col, img ! row ! (col + 1))] else []) @
     (if row + 1 < h then [(img ! row ! col, img ! (row + 1) ! col)] else []) @
     (if col + 1 < w \<and> row + 1 < h then [(img ! row ! col, img ! (row + 1) ! (col + 1))] else []) @
     (if col + 1 < w \<and> row > 0 then [(img ! row ! col, img ! (row - 1) ! (col + 1))] else [])"

definition all_neighbors :: "int list list \<Rightarrow> nat \<Rightarrow> nat \<Rightarrow> (int \<times> int) list" where
  "all_neighbors img h w =
     concat (map (\<lambda>row. concat (map (neighbors img h w row) [0..<w])) [0..<h])"

definition add_all :: "(int \<times> int) list \<Rightarrow> 'img simularity_set \<Rightarrow> 'img simularity_set" where
  "add_all ps ss = fold (\<lambda>p s. add_set s (fst p) (snd p)) ps ss"

text \<open>
  The labels that occur in a set of pairs, the pairs read in both orders, the pairs of
  two different labels, and a set that holds no pair in both orders.
\<close>

definition labels :: "(int \<times> int) set \<Rightarrow> int set" where
  "labels S = fst ` S \<union> snd ` S"

definition upairs :: "(int \<times> int) set \<Rightarrow> (int \<times> int) set" where
  "upairs S = S \<union> S\<inverse>"

definition offdiag :: "(int \<times> int) set \<Rightarrow> (int \<times> int) set" where
  "offdiag S = {p \<in> S. fst p \<noteq> snd p}"

definition one_way :: "(int \<times> int) set \<Rightarrow> bool" where
  "one_way S = (S \<inter> S\<inverse> = {})"

text \<open>
  The first two statements of \<open>remove_set\<close>: the pair leaves the set in both orders.
\<close>

definition drop_pair :: "'img simularity_set \<Rightarrow> int \<times> int \<Rightarrow> 'img simularity_set" where
  "drop_pair ss s = ss\<lparr>sim_set := sim_set ss - {s, (snd s, fst s)}\<rparr>"

section \<open>Concrete inputs\<close>

text \<open>
  Two boxes, the second to the right of the first and not on the diagonal.
\<close>

definition example_box_a :: bounding_box where
  "example_box_a = \<lparr>region = Label 1, row_start = 0, col_start = 4, height = 1, width = 1\<rparr>"

definition example_box_b :: bounding_box where
  "example_box_b = \<lparr>region = Label 2, row_start = 0, col_start = 5, height = 2, width = 3\<rparr>"

text \<open>
  A label image of two rows and five columns with two regions of four pixels each, and a
  disjoint set in which every label is its own representative, of size 4.
\<close>

definition example_fill_image :: "int list list" where
  "example_fill_image = [[1, 1, 0, 2, 2], [1, 1, 0, 2, 2]]"

definition example_find :: "int \<Rightarrow> node" where
  "example_find r = \<lparr>node_label = r, node_size = 4\<rparr>"

definition example_fill_set :: "unit simularity_set" where
  "example_fill_set = projr (simularity_set_init example_fill_image () example_find)"

text \<open>
  The label image of the module's own smoke test, the object built from it, and the
  objects after removing the pairs (1, 2), (1, 4) and (1, 5) in turn.
\<close>

definition example_image :: "int list list" where
  "example_image = [[1, 2, 3], [4, 5, 6], [4, 4, 6]]"

definition example_set :: "unit simularity_set" where
  "example_set = projr (simularity_set_init example_image () example_find)"

definition example_removed_1 :: "unit simularity_set" where
  "example_removed_1 = snd (remove_set example_set (1, 2))"

definition example_removed_2 :: "unit simularity_set" where
  "example_removed_2 = snd (remove_set example_removed_1 (1, 4))"

definition example_after :: "unit simularity_set" where
  "example_after = snd (remove_set example_removed_2 (1, 5))"

text \<open>
  A label image of one row with two regions, the object built from it, the object after
  removing its only pair, and a colour image of three rows and one column.
\<close>

definition example_pair_image :: "int list list" where
  "example_pair_image = [[1, 2]]"

definition example_pair_set :: "unit simularity_set" where
  "example_pair_set = projr (simularity_set_init example_pair_image () example_find)"

definition example_pair_removed :: "unit simularity_set" where
  "example_pair_removed = snd (remove_set example_pair_set (1, 2))"

definition example_color_image :: "int list list list" where
  "example_color_image = [[[0, 0, 0]], [[0, 0, 0]], [[0, 0, 0]]]"









section \<open>Bounding boxes\<close>

text \<open>
  C1. \<open>combine_bounding_boxes\<close> computes the right edge of the second box from its
  \<open>row_start\<close> instead of its \<open>col_start\<close>. For the box at row 0, column 4 of height 1
  and width 1 and the box at row 0, column 5 of height 2 and width 3, the code returns a
  box of width 1 where the union of the specification has width 4: the result does not
  contain the second box and its area, 2, is smaller than the second box's, 6.
\<close>

theorem combine_bounding_boxes_wrong_column:
  "combine_bounding_boxes example_box_a example_box_b =
     \<lparr>region = Tuple (Label 1) (Label 2), row_start = 0, col_start = 4, height = 2, width = 1\<rparr> \<and>
   union_spec example_box_a example_box_b =
     \<lparr>region = Tuple (Label 1) (Label 2), row_start = 0, col_start = 4, height = 2, width = 4\<rparr> \<and>
   \<not> contains_box (combine_bounding_boxes example_box_a example_box_b) example_box_b \<and>
   bbox_len (combine_bounding_boxes example_box_a example_box_b) < bbox_len example_box_b"
  by (simp add: combine_bounding_boxes_def union_spec_def contains_box_def bbox_len_def
      example_box_a_def example_box_b_def Let_def)

section \<open>Adding pairs\<close>

lemma sim_set_add_set:
  "sim_set (add_set ss a b) =
     (if a \<noteq> b \<and> (b, a) \<notin> sim_set ss then insert (a, b) (sim_set ss) else sim_set ss)"
  by (simp add: add_set_def Let_def)

lemma region_set_add_set:
  "region_set (add_set ss a b) =
     (if a \<noteq> b then insert b (insert a (region_set ss)) else region_set ss)"
  by (simp add: add_set_def Let_def)

lemma add_set_frame:
  "region_image (add_set ss a b) = region_image ss"
  "img_height (add_set ss a b) = img_height ss"
  "img_width (add_set ss a b) = img_width ss"
  "image_size (add_set ss a b) = image_size ss"
  "image (add_set ss a b) = image ss"
  "disjoint_set (add_set ss a b) = disjoint_set ss"
  "bounding_box_dict (add_set ss a b) = bounding_box_dict ss"
  by (simp_all add: add_set_def Let_def)

lemma add_all_Nil: "add_all [] ss = ss"
  by (simp add: add_all_def)

lemma add_all_Cons: "add_all (p # ps) ss = add_all ps (add_set ss (fst p) (snd p))"
  by (simp add: add_all_def)

lemma add_all_append: "add_all (ps @ qs) ss = add_all qs (add_all ps ss)"
  by (simp add: add_all_def)

lemma add_all_frame:
  "region_image (add_all ps ss) = region_image ss \<and>
   img_height (add_all ps ss) = img_height ss \<and>
   img_width (add_all ps ss) = img_width ss \<and>
   image_size (add_all ps ss) = image_size ss \<and>
   image (add_all ps ss) = image ss \<and>
   disjoint_set (add_all ps ss) = disjoint_set ss \<and>
   bounding_box_dict (add_all ps ss) = bounding_box_dict ss"
  by (induction ps arbitrary: ss) (simp_all add: add_all_Nil add_all_Cons add_set_frame)

lemma sim_set_add_all:
  "sim_set (add_all ps ss) =
     fold (\<lambda>p S. if fst p \<noteq> snd p \<and> (snd p, fst p) \<notin> S then insert p S else S) ps (sim_set ss)"
  by (induction ps arbitrary: ss) (simp_all add: add_all_Nil add_all_Cons sim_set_add_set)

lemma region_set_add_all:
  "region_set (add_all ps ss) =
     fold (\<lambda>p R. if fst p \<noteq> snd p then insert (snd p) (insert (fst p) R) else R) ps (region_set ss)"
  by (induction ps arbitrary: ss) (simp_all add: add_all_Nil add_all_Cons region_set_add_set)

lemma upairs_add_set:
  "upairs (sim_set (add_set ss a b)) =
     upairs (sim_set ss) \<union> (if a \<noteq> b then {(a, b), (b, a)} else {})"
  by (auto simp: upairs_def sim_set_add_set)

lemma one_way_add_set: "one_way (sim_set ss) \<Longrightarrow> one_way (sim_set (add_set ss a b))"
  by (auto simp: one_way_def sim_set_add_set)

lemma labels_empty: "labels {} = {}"
  by (simp add: labels_def)

lemma labels_insert: "labels (insert p S) = insert (fst p) (insert (snd p) (labels S))"
  by (auto simp: labels_def)

lemma in_labels: "r \<in> labels S \<longleftrightarrow> (\<exists>item \<in> S. in_tuple r item)"
  by (auto simp: labels_def in_tuple_def image_iff)

lemma labels_Collect: "labels S = {r. \<exists>item \<in> S. in_tuple r item}"
  by (rule set_eqI) (simp add: in_labels)

lemma labels_mono: "S \<subseteq> T \<Longrightarrow> labels S \<subseteq> labels T"
  by (auto simp: labels_def)

lemma labels_upairs: "r \<in> labels S \<longleftrightarrow> (\<exists>x. (r, x) \<in> upairs S)"
  by (auto simp: labels_def upairs_def image_iff) force+

lemma upairs_offdiag: "(a, b) \<in> upairs (offdiag S) \<longleftrightarrow> a \<noteq> b \<and> (a, b) \<in> upairs S"
  by (auto simp: upairs_def offdiag_def)

lemma live_add_set:
  "region_set ss = labels (sim_set ss) \<Longrightarrow>
   region_set (add_set ss a b) = labels (sim_set (add_set ss a b))"
  by (auto simp: labels_def sim_set_add_set region_set_add_set image_iff) force+

lemma upairs_add_all:
  "upairs (sim_set (add_all ps ss)) = upairs (sim_set ss) \<union> upairs (offdiag (set ps))"
proof (induction ps arbitrary: ss)
  case Nil
  show ?case by (simp add: add_all_Nil upairs_def offdiag_def)
next
  case (Cons p ps)
  have "upairs (offdiag (set (p # ps))) =
        (if fst p \<noteq> snd p then {(fst p, snd p), (snd p, fst p)} else {}) \<union> upairs (offdiag (set ps))"
    by (auto simp: upairs_def offdiag_def)
  then show ?case
    by (simp add: add_all_Cons Cons.IH upairs_add_set Un_assoc)
qed

lemma one_way_add_all: "one_way (sim_set ss) \<Longrightarrow> one_way (sim_set (add_all ps ss))"
  by (induction ps arbitrary: ss) (simp_all add: add_all_Nil add_all_Cons one_way_add_set)

lemma live_add_all:
  "region_set ss = labels (sim_set ss) \<Longrightarrow>
   region_set (add_all ps ss) = labels (sim_set (add_all ps ss))"
  by (induction ps arbitrary: ss) (simp_all add: add_all_Nil add_all_Cons live_add_set)

lemma add_set_image:
  "add_set (ss\<lparr>image := x\<rparr>) a b = (add_set ss a b)\<lparr>image := x\<rparr>"
  by (simp add: add_set_def Let_def)

lemma add_all_image:
  "add_all ps (ss\<lparr>image := x\<rparr>) = (add_all ps ss)\<lparr>image := x\<rparr>"
  by (induction ps arbitrary: ss) (simp_all add: add_all_Nil add_all_Cons add_set_image)

section \<open>The scan of the label image\<close>

lemma scan_pixel_add_all:
  "scan_pixel ss row col =
     add_all (neighbors (region_image ss) (img_height ss) (img_width ss) row col) ss"
  by (simp add: scan_pixel_def neighbors_def Let_def add_all_def add_set_frame)

lemma scan_row_add_all:
  "fold (\<lambda>col s. scan_pixel s row col) cs ss =
     add_all (concat (map (neighbors (region_image ss) (img_height ss) (img_width ss) row) cs)) ss"
proof (induction cs arbitrary: ss)
  case Nil
  show ?case by (simp add: add_all_Nil)
next
  case (Cons c cs)
  let ?s = "scan_pixel ss row c"
  have frame: "region_image ?s = region_image ss" "img_height ?s = img_height ss"
    "img_width ?s = img_width ss"
    by (simp_all add: scan_pixel_add_all add_all_frame)
  have "fold (\<lambda>col s. scan_pixel s row col) (c # cs) ss =
        fold (\<lambda>col s. scan_pixel s row col) cs ?s"
    by simp
  also have "\<dots> = add_all (concat (map (neighbors (region_image ss) (img_height ss)
                        (img_width ss) row) cs)) ?s"
    using Cons.IH [of ?s] by (simp only: frame)
  finally show ?case
    by (simp add: scan_pixel_add_all add_all_append)
qed

lemma scan_rows_add_all:
  "fold (\<lambda>row. fold (\<lambda>col s. scan_pixel s row col) cs) rs ss =
     add_all (concat (map (\<lambda>row. concat (map (neighbors (region_image ss) (img_height ss)
        (img_width ss) row) cs)) rs)) ss"
proof (induction rs arbitrary: ss)
  case Nil
  show ?case by (simp add: add_all_Nil)
next
  case (Cons r rs)
  let ?s = "fold (\<lambda>col s. scan_pixel s r col) cs ss"
  have frame: "region_image ?s = region_image ss" "img_height ?s = img_height ss"
    "img_width ?s = img_width ss"
    by (simp_all add: scan_row_add_all add_all_frame)
  have "fold (\<lambda>row. fold (\<lambda>col s. scan_pixel s row col) cs) (r # rs) ss =
        fold (\<lambda>row. fold (\<lambda>col s. scan_pixel s row col) cs) rs ?s"
    by simp
  also have "\<dots> = add_all (concat (map (\<lambda>row. concat (map (neighbors (region_image ss)
                        (img_height ss) (img_width ss) row) cs)) rs)) ?s"
    using Cons.IH [of ?s] by (simp only: frame)
  also have "\<dots> = add_all (concat (map (\<lambda>row. concat (map (neighbors (region_image ss)
                        (img_height ss) (img_width ss) row) cs)) rs))
                      (add_all (concat (map (neighbors (region_image ss) (img_height ss)
                        (img_width ss) r) cs)) ss)"
    by (simp only: scan_row_add_all [of r cs ss])
  also have "\<dots> = add_all (concat (map (\<lambda>row. concat (map (neighbors (region_image ss)
                        (img_height ss) (img_width ss) row) cs)) (r # rs))) ss"
    by (simp add: add_all_append)
  finally show ?case .
qed

lemma find_neighbors_add_all:
  "find_neighbors ss =
     add_all (all_neighbors (region_image ss) (img_height ss) (img_width ss)) ss"
  by (simp add: find_neighbors_def all_neighbors_def scan_rows_add_all)

lemma sim_set_blank: "sim_set (blank img im ds) = {}" "region_set (blank img im ds) = {}"
  by (simp_all add: blank_def)

lemma scanned_add_all:
  "scanned img im ds = add_all (all_neighbors img (fst (shape img)) (snd (shape img))) (blank img im ds)"
  by (simp add: scanned_def find_neighbors_add_all) (simp add: blank_def)

lemma scanned_frame:
  "region_image (scanned img im ds) = img"
  "img_height (scanned img im ds) = fst (shape img)"
  "img_width (scanned img im ds) = snd (shape img)"
  "image_size (scanned img im ds) = fst (shape img) * snd (shape img)"
  "image (scanned img im ds) = im"
  "disjoint_set (scanned img im ds) = ds"
  by (simp_all add: scanned_add_all add_all_frame) (simp_all add: blank_def)

lemma scanned_image: "scanned img im' ds = (scanned img im ds)\<lparr>image := im'\<rparr>"
proof -
  have "blank img im' ds = (blank img im ds)\<lparr>image := im'\<rparr>"
    by (simp add: blank_def)
  then show ?thesis
    by (simp add: scanned_add_all add_all_image)
qed

lemma upairs_scanned:
  "upairs (sim_set (scanned img im ds)) =
     upairs (offdiag (set (all_neighbors img (fst (shape img)) (snd (shape img)))))"
  by (simp add: scanned_add_all upairs_add_all) (simp add: blank_def upairs_def)

lemma one_way_scanned: "one_way (sim_set (scanned img im ds))"
  unfolding scanned_add_all by (rule one_way_add_all) (simp add: blank_def one_way_def)

lemma live_scanned: "region_set (scanned img im ds) = labels (sim_set (scanned img im ds))"
  unfolding scanned_add_all by (rule live_add_all) (simp add: blank_def labels_def)

lemma set_all_neighbors:
  "set (all_neighbors img h w) = (\<Union>row \<in> {0..<h}. \<Union>col \<in> {0..<w}. set (neighbors img h w row col))"
  by (simp add: all_neighbors_def)

lemma in_neighbors:
  "(a, b) \<in> set (neighbors img h w row col) \<longleftrightarrow>
     a = img ! row ! col \<and>
     (col + 1 < w \<and> b = img ! row ! (col + 1) \<or>
      row + 1 < h \<and> b = img ! (row + 1) ! col \<or>
      col + 1 < w \<and> row + 1 < h \<and> b = img ! (row + 1) ! (col + 1) \<or>
      col + 1 < w \<and> row > 0 \<and> b = img ! (row - 1) ! (col + 1))"
  by (auto simp: neighbors_def)

lemma neighbors_touching:
  assumes "(a, b) \<in> set (neighbors img (fst (shape img)) (snd (shape img)) row col)"
    and "row < fst (shape img)" and "col < snd (shape img)"
  shows "touching img a b"
proof -
  let ?h = "fst (shape img)" and ?w = "snd (shape img)"
  from assms(1) have a: "a = img ! row ! col" by (simp add: in_neighbors)
  from assms(1) consider
      "col + 1 < ?w" "b = img ! row ! (col + 1)"
    | "row + 1 < ?h" "b = img ! (row + 1) ! col"
    | "col + 1 < ?w" "row + 1 < ?h" "b = img ! (row + 1) ! (col + 1)"
    | "col + 1 < ?w" "row > 0" "b = img ! (row - 1) ! (col + 1)"
    by (auto simp: in_neighbors)
  then obtain r2 c2 where "r2 < ?h" "c2 < ?w" "adjacent8 (row, col) (r2, c2)" "b = img ! r2 ! c2"
  proof cases
    case 1 then show ?thesis using assms(2) that [of row "col + 1"] by (simp add: adjacent8_def)
  next
    case 2 then show ?thesis using assms(3) that [of "row + 1" col] by (simp add: adjacent8_def)
  next
    case 3 then show ?thesis using that [of "row + 1" "col + 1"] by (simp add: adjacent8_def)
  next
    case 4 then show ?thesis using assms(2) that [of "row - 1" "col + 1"] by (simp add: adjacent8_def)
  qed
  then show ?thesis
    using a assms(2,3) unfolding touching_def by (auto intro!: bexI)
qed

lemma adjacent8_sym: "adjacent8 p q \<Longrightarrow> adjacent8 q p"
  by (auto simp: adjacent8_def)

lemma touching_sym: "touching img a b \<Longrightarrow> touching img b a"
  unfolding touching_def by (meson adjacent8_sym)

lemma adjacent_scanned:
  assumes "adjacent8 (r1, c1) (r2, c2)" and "r1 < h" "c1 < w" "r2 < h" "c2 < w" "c1 \<le> c2"
  shows "(img ! r1 ! c1, img ! r2 ! c2) \<in> set (neighbors img h w r1 c1) \<or>
         (img ! r2 ! c2, img ! r1 ! c1) \<in> set (neighbors img h w r2 c2)"
proof -
  from assms(1,6) have c: "c2 = c1 \<or> c2 = c1 + 1"
    and r: "r2 = r1 \<or> r2 = r1 + 1 \<or> r1 = r2 + 1"
    and ne: "\<not> (c2 = c1 \<and> r2 = r1)"
    by (auto simp: adjacent8_def)
  then consider "c2 = c1 + 1" "r2 = r1" | "c2 = c1 + 1" "r2 = r1 + 1"
    | "c2 = c1 + 1" "r1 = r2 + 1" | "c2 = c1" "r2 = r1 + 1" | "c2 = c1" "r1 = r2 + 1"
    by blast
  then show ?thesis
    using assms(2-5) by cases (auto simp: in_neighbors)
qed

lemma touching_scanned:
  assumes "touching img a b"
  shows "(a, b) \<in> upairs (set (all_neighbors img (fst (shape img)) (snd (shape img))))"
proof -
  let ?h = "fst (shape img)" and ?w = "snd (shape img)"
  from assms obtain r1 c1 r2 c2 where b: "r1 < ?h" "c1 < ?w" "r2 < ?h" "c2 < ?w"
    and adj: "adjacent8 (r1, c1) (r2, c2)" and l: "img ! r1 ! c1 = a" "img ! r2 ! c2 = b"
    unfolding touching_def by auto
  show ?thesis
  proof (cases "c1 \<le> c2")
    case True
    from adjacent_scanned [OF adj b True, of img] show ?thesis
      using b l by (auto simp: upairs_def set_all_neighbors)
  next
    case False
    then have "c2 \<le> c1" by simp
    from adjacent_scanned [OF adjacent8_sym [OF adj] b(3,4,1,2) this, of img] show ?thesis
      using b l by (auto simp: upairs_def set_all_neighbors)
  qed
qed

lemma scanned_touching:
  assumes "(a, b) \<in> upairs (set (all_neighbors img (fst (shape img)) (snd (shape img))))"
  shows "touching img a b"
proof -
  let ?h = "fst (shape img)" and ?w = "snd (shape img)"
  from assms consider "(a, b) \<in> set (all_neighbors img ?h ?w)"
    | "(b, a) \<in> set (all_neighbors img ?h ?w)"
    by (auto simp: upairs_def)
  then show ?thesis
  proof cases
    case 1
    then obtain row col where "row < ?h" "col < ?w" "(a, b) \<in> set (neighbors img ?h ?w row col)"
      by (auto simp: set_all_neighbors)
    then show ?thesis by (simp add: neighbors_touching)
  next
    case 2
    then obtain row col where "row < ?h" "col < ?w" "(b, a) \<in> set (neighbors img ?h ?w row col)"
      by (auto simp: set_all_neighbors)
    then have "touching img b a" by (simp add: neighbors_touching)
    then show ?thesis by (rule touching_sym)
  qed
qed

lemma scanned_iff_touching:
  "(a, b) \<in> upairs (sim_set (scanned img im ds)) \<longleftrightarrow> a \<noteq> b \<and> touching img a b"
  using touching_scanned [of img a b] scanned_touching [of a b img]
  by (auto simp: upairs_scanned upairs_offdiag)

section \<open>Pixels and boxes of a region\<close>

lemma set_get_indices_of_region:
  "set (get_indices_of_region ss r) =
     {(row, col). row < length (region_image ss) \<and> col < length (region_image ss ! row) \<and>
        region_image ss ! row ! col = r}"
  by (auto simp: get_indices_of_region_def)

lemma create_bounding_box_empty:
  "get_indices_of_region ss r = [] \<Longrightarrow> create_bounding_box ss r = Inl ValueError"
  by (simp add: create_bounding_box_def)

lemma create_bounding_box_nonempty:
  "get_indices_of_region ss r \<noteq> [] \<Longrightarrow> \<not> isl (create_bounding_box ss r)"
  by (cases "get_indices_of_region ss r") (simp_all add: create_bounding_box_def)

lemma create_bounding_box_image:
  "create_bounding_box (ss\<lparr>image := x\<rparr>) r = create_bounding_box ss r"
  by (simp add: create_bounding_box_def get_indices_of_region_def)

lemma absent_region_no_indices:
  assumes "\<forall>row \<in> set (region_image ss). r \<notin> set row"
  shows "get_indices_of_region ss r = []"
proof -
  have "set (get_indices_of_region ss r) = {}"
  proof (rule ccontr)
    assume "set (get_indices_of_region ss r) \<noteq> {}"
    then obtain row col where "row < length (region_image ss)"
      "col < length (region_image ss ! row)" "region_image ss ! row ! col = r"
      by (auto simp: set_get_indices_of_region)
    then have "region_image ss ! row \<in> set (region_image ss)" "r \<in> set (region_image ss ! row)"
      by (auto simp: in_set_conv_nth)
    with assms show False by blast
  qed
  then show ?thesis by simp
qed

lemma rectangular_nth:
  "rectangular img \<Longrightarrow> row < fst (shape img) \<Longrightarrow> length (img ! row) = snd (shape img)"
  by (simp add: rectangular_def shape_def list_all_length)

section \<open>Construction succeeds\<close>

lemma simularity_set_init_scanned:
  "simularity_set_init img im ds =
     (if \<exists>r \<in> region_set (scanned img im ds). isl (create_bounding_box (scanned img im ds) r)
      then Inl ValueError
      else Inr ((scanned img im ds)\<lparr>bounding_box_dict :=
                  (\<lambda>r. if r \<in> region_set (scanned img im ds)
                       then Some (projr (create_bounding_box (scanned img im ds) r)) else None)\<rparr>))"
  unfolding simularity_set_init_def scanned_def blank_def Let_def ..

lemma live_region_occurs:
  assumes "rectangular img" and "r \<in> region_set (scanned img im ds)"
  shows "get_indices_of_region (scanned img im ds) r \<noteq> []"
proof -
  from assms(2) obtain x where "(r, x) \<in> upairs (sim_set (scanned img im ds))"
    by (auto simp: live_scanned labels_upairs)
  then have "touching img r x" by (simp add: scanned_iff_touching)
  then obtain r1 c1 where b: "r1 < fst (shape img)" "c1 < snd (shape img)" "img ! r1 ! c1 = r"
    unfolding touching_def by auto
  then have "(r1, c1) \<in> set (get_indices_of_region (scanned img im ds) r)"
    using rectangular_nth [OF assms(1) b(1)]
    by (simp add: set_get_indices_of_region scanned_frame) (simp add: shape_def)
  then show ?thesis by auto
qed

lemma init_succeeds:
  assumes "rectangular img"
  shows "simularity_set_init img im ds =
     Inr ((scanned img im ds)\<lparr>bounding_box_dict :=
                  (\<lambda>r. if r \<in> region_set (scanned img im ds)
                       then Some (projr (create_bounding_box (scanned img im ds) r)) else None)\<rparr>)"
  using live_region_occurs [OF assms, of _ im ds]
  by (auto simp: simularity_set_init_scanned dest!: create_bounding_box_nonempty)

lemma init_Inr:
  assumes "simularity_set_init img im ds = Inr ss"
  shows "ss = (scanned img im ds)\<lparr>bounding_box_dict :=
                  (\<lambda>r. if r \<in> region_set (scanned img im ds)
                       then Some (projr (create_bounding_box (scanned img im ds) r)) else None)\<rparr>"
proof (cases "\<exists>r \<in> region_set (scanned img im ds). isl (create_bounding_box (scanned img im ds) r)")
  case True
  from assms show ?thesis
    unfolding simularity_set_init_scanned if_P [OF True] by simp
next
  case False
  from assms show ?thesis
    unfolding simularity_set_init_scanned if_not_P [OF False] by simp
qed

lemma projr_init:
  assumes "rectangular img"
  shows "sim_set (projr (simularity_set_init img im ds)) = sim_set (scanned img im ds)"
    and "region_set (projr (simularity_set_init img im ds)) = region_set (scanned img im ds)"
    and "region_image (projr (simularity_set_init img im ds)) = img"
    and "image_size (projr (simularity_set_init img im ds)) = fst (shape img) * snd (shape img)"
    and "disjoint_set (projr (simularity_set_init img im ds)) = ds"
    and "image (projr (simularity_set_init img im ds)) = im"
  by (simp_all add: init_succeeds [OF assms] scanned_frame)

lemma live_init:
  assumes "simularity_set_init img im ds = Inr ss"
  shows "region_set ss = labels (sim_set ss)"
  unfolding init_Inr [OF assms] using live_scanned [of img im ds] by simp

section \<open>Removing pairs\<close>

lemma unused_iff: "({item \<in> S. in_tuple r item} = {}) \<longleftrightarrow> r \<notin> labels S"
  by (auto simp: in_labels)

lemma remove_if_unused_fst:
  "fst (remove_if_unused ss r) =
     (if r \<notin> labels (sim_set ss) \<and> r \<notin> region_set ss then Some KeyError else None)"
  unfolding remove_if_unused_def unused_iff by (simp add: set_remove_def)

lemma remove_if_unused_sim_set: "sim_set (snd (remove_if_unused ss r)) = sim_set ss"
  unfolding remove_if_unused_def unused_iff by (simp add: set_remove_def)

lemma remove_if_unused_region_set:
  "region_set (snd (remove_if_unused ss r)) =
     (if r \<notin> labels (sim_set ss) then region_set ss - {r} else region_set ss)"
  unfolding remove_if_unused_def unused_iff by (simp add: set_remove_def)

lemma remove_set_drop_pair:
  "remove_set ss s =
     (case remove_if_unused (drop_pair ss s) (fst s) of
        (Some e, ss3) \<Rightarrow> (Some e, ss3)
      | (None, ss3) \<Rightarrow> remove_if_unused ss3 (snd s))"
proof -
  have "(if (snd s, fst s) \<in> sim_set (if s \<in> sim_set ss then ss\<lparr>sim_set := sim_set ss - {s}\<rparr> else ss)
         then (if s \<in> sim_set ss then ss\<lparr>sim_set := sim_set ss - {s}\<rparr> else ss)
              \<lparr>sim_set := sim_set (if s \<in> sim_set ss then ss\<lparr>sim_set := sim_set ss - {s}\<rparr> else ss)
                            - {(snd s, fst s)}\<rparr>
         else (if s \<in> sim_set ss then ss\<lparr>sim_set := sim_set ss - {s}\<rparr> else ss)) = drop_pair ss s"
    by (cases ss) (auto simp: drop_pair_def)
  then show ?thesis
    by (simp add: remove_set_def Let_def)
qed

lemma remove_set_steps:
  "remove_set ss s =
     (if fst (remove_if_unused (drop_pair ss s) (fst s)) \<noteq> None
      then remove_if_unused (drop_pair ss s) (fst s)
      else remove_if_unused (snd (remove_if_unused (drop_pair ss s) (fst s))) (snd s))"
proof (cases "remove_if_unused (drop_pair ss s) (fst s)")
  case (Pair e ss3)
  then show ?thesis
    unfolding remove_set_drop_pair by (cases e) simp_all
qed

lemma drop_pair_fields:
  "sim_set (drop_pair ss s) = sim_set ss - {s, (snd s, fst s)}"
  "region_set (drop_pair ss s) = region_set ss"
  by (simp_all add: drop_pair_def)

lemma first_removal:
  "fst (remove_if_unused (drop_pair ss s) (fst s)) =
     (if fst s \<notin> labels (sim_set ss - {s, (snd s, fst s)}) \<and> fst s \<notin> region_set ss
      then Some KeyError else None)"
  "sim_set (snd (remove_if_unused (drop_pair ss s) (fst s))) = sim_set ss - {s, (snd s, fst s)}"
  "region_set (snd (remove_if_unused (drop_pair ss s) (fst s))) =
     (if fst s \<notin> labels (sim_set ss - {s, (snd s, fst s)})
      then region_set ss - {fst s} else region_set ss)"
  by (simp_all add: remove_if_unused_fst remove_if_unused_sim_set remove_if_unused_region_set
      drop_pair_fields)

lemma remove_set_fst:
  "fst (remove_set ss s) =
     (let S = sim_set ss - {s, (snd s, fst s)} in
      if fst s \<notin> labels S \<and> fst s \<notin> region_set ss then Some KeyError
      else if snd s \<notin> labels S \<and>
              snd s \<notin> (if fst s \<notin> labels S then region_set ss - {fst s} else region_set ss)
           then Some KeyError else None)"
proof (cases "fst s \<notin> labels (sim_set ss - {s, (snd s, fst s)}) \<and> fst s \<notin> region_set ss")
  case True
  then show ?thesis
    unfolding remove_set_steps Let_def by (simp add: first_removal)
next
  case False
  then have "fst (remove_if_unused (drop_pair ss s) (fst s)) = None"
    by (simp add: first_removal)
  then have "fst (remove_set ss s) =
      fst (remove_if_unused (snd (remove_if_unused (drop_pair ss s) (fst s))) (snd s))"
    by (simp add: remove_set_steps)
  also have "\<dots> =
      (if snd s \<notin> labels (sim_set ss - {s, (snd s, fst s)}) \<and>
          snd s \<notin> (if fst s \<notin> labels (sim_set ss - {s, (snd s, fst s)})
                     then region_set ss - {fst s} else region_set ss)
       then Some KeyError else None)"
    by (simp only: remove_if_unused_fst
          [of "snd (remove_if_unused (drop_pair ss s) (fst s))"] first_removal)
  finally show ?thesis
    using False unfolding Let_def by auto
qed

lemma remove_set_sim_set: "sim_set (snd (remove_set ss s)) = sim_set ss - {s, (snd s, fst s)}"
  unfolding remove_set_steps
  by (simp add: remove_if_unused_sim_set drop_pair_fields)

lemma remove_set_region_set:
  "region_set (snd (remove_set ss s)) =
     (let S = sim_set ss - {s, (snd s, fst s)};
          R1 = (if fst s \<notin> labels S then region_set ss - {fst s} else region_set ss)
      in if fst s \<notin> labels S \<and> fst s \<notin> region_set ss then region_set ss
         else if snd s \<notin> labels S then R1 - {snd s} else R1)"
proof (cases "fst s \<notin> labels (sim_set ss - {s, (snd s, fst s)}) \<and> fst s \<notin> region_set ss")
  case True
  then show ?thesis
    unfolding remove_set_steps Let_def by (simp add: first_removal)
next
  case False
  then have "fst (remove_if_unused (drop_pair ss s) (fst s)) = None"
    by (simp add: first_removal)
  then have "region_set (snd (remove_set ss s)) =
      region_set (snd (remove_if_unused (snd (remove_if_unused (drop_pair ss s) (fst s))) (snd s)))"
    by (simp add: remove_set_steps)
  also have "\<dots> =
      (if snd s \<notin> labels (sim_set ss - {s, (snd s, fst s)})
       then (if fst s \<notin> labels (sim_set ss - {s, (snd s, fst s)})
             then region_set ss - {fst s} else region_set ss) - {snd s}
       else (if fst s \<notin> labels (sim_set ss - {s, (snd s, fst s)})
             then region_set ss - {fst s} else region_set ss))"
    by (simp only: remove_if_unused_region_set
          [of "snd (remove_if_unused (drop_pair ss s) (fst s))"] first_removal)
  finally show ?thesis
    using False unfolding Let_def by auto
qed

lemma labels_drop:
  "r \<in> labels S \<Longrightarrow> r \<notin> labels (S - {s, (snd s, fst s)}) \<Longrightarrow> r = fst s \<or> r = snd s"
  by (auto simp: in_labels in_tuple_def)

lemma live_remove_set:
  assumes "region_set ss = labels (sim_set ss)"
  shows "region_set (snd (remove_set ss s)) = labels (sim_set (snd (remove_set ss s)))"
proof -
  let ?S = "sim_set ss - {s, (snd s, fst s)}"
  have sub: "labels ?S \<subseteq> labels (sim_set ss)" by (rule labels_mono) auto
  have drop: "labels (sim_set ss) - labels ?S \<subseteq> {fst s, snd s}"
    using labels_drop [of _ "sim_set ss" s] by blast
  show ?thesis
  proof (cases "fst s \<notin> labels ?S \<and> fst s \<notin> region_set ss")
    case True
    then have "s \<notin> sim_set ss" "(snd s, fst s) \<notin> sim_set ss"
      using assms by (auto simp: in_labels in_tuple_def)
    then have "?S = sim_set ss" by auto
    with True assms show ?thesis
      by (simp add: remove_set_sim_set remove_set_region_set Let_def)
  next
    case False
    consider "fst s \<in> labels ?S" "snd s \<in> labels ?S"
      | "fst s \<in> labels ?S" "snd s \<notin> labels ?S"
      | "fst s \<notin> labels ?S" "snd s \<in> labels ?S"
      | "fst s \<notin> labels ?S" "snd s \<notin> labels ?S"
      by blast
    then have "region_set (snd (remove_set ss s)) = labels ?S"
    proof cases
      case 1
      then have "region_set (snd (remove_set ss s)) = labels (sim_set ss)"
        using False by (simp add: remove_set_region_set Let_def assms)
      also have "\<dots> = labels ?S" using 1 sub drop by blast
      finally show ?thesis .
    next
      case 2
      then have "region_set (snd (remove_set ss s)) = labels (sim_set ss) - {snd s}"
        using False by (simp add: remove_set_region_set Let_def assms)
      also have "\<dots> = labels ?S" using 2 sub drop by blast
      finally show ?thesis .
    next
      case 3
      then have "region_set (snd (remove_set ss s)) = labels (sim_set ss) - {fst s}"
        using False by (simp add: remove_set_region_set Let_def assms)
      also have "\<dots> = labels ?S" using 3 sub drop by blast
      finally show ?thesis .
    next
      case 4
      then have "region_set (snd (remove_set ss s)) = labels (sim_set ss) - {fst s} - {snd s}"
        using False by (simp add: remove_set_region_set Let_def assms)
      also have "\<dots> = labels ?S" using 4 sub drop by blast
      finally show ?thesis .
    qed
    then show ?thesis by (simp add: remove_set_sim_set)
  qed
qed

lemma reachable_live: "reachable ss \<Longrightarrow> region_set ss = labels (sim_set ss)"
proof (induction rule: reachable.induct)
  case (constructed img im ds ss)
  from constructed.hyps show ?case by (rule live_init)
next
  case (added ss a b)
  from added.IH show ?case by (rule live_add_set)
next
  case (removed ss s)
  from removed.IH show ?case by (rule live_remove_set)
qed

section \<open>The concrete inputs evaluated\<close>

lemma upt3: "[0..<3] = [0, 1, 2]"
  by (simp add: upt_rec)

lemma upt_small: "[0..<1] = [0]" "[0..<2] = [0, 1]" "[0..<5] = [0, 1, 2, 3, 4]"
  by (simp_all add: upt_rec)

lemma example_rectangular:
  "rectangular example_image" "rectangular example_pair_image" "rectangular example_fill_image"
  by (simp_all add: rectangular_def shape_def example_image_def example_pair_image_def
      example_fill_image_def)

lemma example_shape: "shape example_image = (3, 3)"
  by (simp add: shape_def example_image_def)

lemma example_neighbors:
  "all_neighbors example_image 3 3 =
     [(1, 2), (1, 4), (1, 5), (2, 3), (2, 5), (2, 6), (3, 6),
      (4, 5), (4, 4), (4, 4), (4, 2), (5, 6), (5, 4), (5, 6), (5, 3), (6, 6),
      (4, 4), (4, 5), (4, 6), (4, 6)]"
  by (simp add: all_neighbors_def upt3 neighbors_def example_image_def)

lemma example_sim_set:
  "sim_set (scanned example_image im ds) =
     {(1, 2), (1, 4), (1, 5), (2, 3), (2, 5), (2, 6), (3, 6), (4, 5), (4, 2), (5, 6), (5, 3), (4, 6)}"
  by (simp add: scanned_add_all example_shape example_neighbors sim_set_add_all sim_set_blank
      insert_commute)

lemma example_region_set:
  "region_set (scanned example_image im ds) = {1, 2, 3, 4, 5, 6}"
  by (simp add: scanned_add_all example_shape example_neighbors region_set_add_all sim_set_blank
      insert_commute)

lemma example_set_fields:
  "sim_set example_set =
     {(1, 2), (1, 4), (1, 5), (2, 3), (2, 5), (2, 6), (3, 6), (4, 5), (4, 2), (5, 6), (5, 3), (4, 6)}"
  "region_set example_set = {1, 2, 3, 4, 5, 6}"
  by (simp_all only: example_set_def projr_init [OF example_rectangular(1)]
      example_sim_set example_region_set)

lemma example_step1:
  "fst (remove_set example_set (1, 2)) = None"
  "sim_set example_removed_1 =
     {(1, 4), (1, 5), (2, 3), (2, 5), (2, 6), (3, 6), (4, 5), (4, 2), (5, 6), (5, 3), (4, 6)}"
  "region_set example_removed_1 = {1, 2, 3, 4, 5, 6}"
  by (simp_all add: example_removed_1_def remove_set_fst remove_set_sim_set
      remove_set_region_set Let_def example_set_fields labels_insert labels_empty)

lemma example_step2:
  "fst (remove_set example_removed_1 (1, 4)) = None"
  "sim_set example_removed_2 =
     {(1, 5), (2, 3), (2, 5), (2, 6), (3, 6), (4, 5), (4, 2), (5, 6), (5, 3), (4, 6)}"
  "region_set example_removed_2 = {1, 2, 3, 4, 5, 6}"
  by (simp_all add: example_removed_2_def remove_set_fst remove_set_sim_set
      remove_set_region_set Let_def example_step1 labels_insert labels_empty)

lemma example_step3:
  "fst (remove_set example_removed_2 (1, 5)) = None"
  "sim_set example_after =
     {(2, 3), (2, 5), (2, 6), (3, 6), (4, 5), (4, 2), (5, 6), (5, 3), (4, 6)}"
  "region_set example_after = {2, 3, 4, 5, 6}"
  by (simp_all add: example_after_def remove_set_fst remove_set_sim_set
      remove_set_region_set Let_def example_step2 labels_insert labels_empty)

lemma example_reachable: "reachable example_after"
proof -
  have "simularity_set_init example_image () example_find = Inr example_set"
    by (simp add: example_set_def init_succeeds [OF example_rectangular(1)])
  then have "reachable example_set" by (rule reachable.constructed)
  then have "reachable example_removed_1"
    unfolding example_removed_1_def by (rule reachable.removed)
  then have "reachable example_removed_2"
    unfolding example_removed_2_def by (rule reachable.removed)
  then show ?thesis
    unfolding example_after_def by (rule reachable.removed)
qed

lemma example_pair_shape: "shape example_pair_image = (1, 2)"
  by (simp add: shape_def example_pair_image_def)

lemma example_pair_neighbors: "all_neighbors example_pair_image (Suc 0) 2 = [(1, 2)]"
  by (simp add: all_neighbors_def upt_small neighbors_def example_pair_image_def)

lemma example_pair_set_fields:
  "sim_set example_pair_set = {(1, 2)}"
  "region_set example_pair_set = {1, 2}"
  "region_image example_pair_set = example_pair_image"
  by (simp_all add: example_pair_set_def projr_init [OF example_rectangular(2)]
      scanned_add_all example_pair_shape example_pair_neighbors sim_set_add_all
      region_set_add_all sim_set_blank insert_commute)

lemma example_pair_removed_fields:
  "fst (remove_set example_pair_set (1, 2)) = None"
  "sim_set example_pair_removed = {}"
  "region_set example_pair_removed = {}"
  by (simp_all add: example_pair_removed_def remove_set_fst remove_set_sim_set
      remove_set_region_set Let_def example_pair_set_fields labels_insert labels_empty)

lemma example_pair_touching: "touching example_pair_image 1 2"
  unfolding touching_def example_pair_shape
  by (rule bexI [of _ 0], rule bexI [of _ 0], rule bexI [of _ 0], rule bexI [of _ 1])
     (simp_all add: adjacent8_def example_pair_image_def)

lemma example_fill_set_fields:
  "region_image example_fill_set = example_fill_image"
  "image_size example_fill_set = 10"
  "disjoint_set example_fill_set = example_find"
  by (simp_all add: example_fill_set_def projr_init [OF example_rectangular(3)])
     (simp add: shape_def example_fill_image_def)

lemma example_fill_indices:
  "get_indices_of_region example_fill_set 1 = [(0, 0), (0, 1), (1, 0), (1, 1)]"
  "get_indices_of_region example_fill_set 2 = [(0, 3), (0, 4), (1, 3), (1, 4)]"
  by (simp_all add: get_indices_of_region_def example_fill_set_fields example_fill_image_def
      upt_small)

lemma example_fill_boxes:
  "create_bounding_box example_fill_set 1 =
     Inr \<lparr>region = Label 1, row_start = 0, col_start = 0, height = 1, width = 1\<rparr>"
  "create_bounding_box example_fill_set 2 =
     Inr \<lparr>region = Label 2, row_start = 0, col_start = 3, height = 1, width = 1\<rparr>"
  by (simp_all add: create_bounding_box_def example_fill_indices)

section \<open>Adjacency discovery\<close>

text \<open>
  C4. Construction from a two-dimensional label image succeeds, and in the object it
  builds two different labels are recorded as a pair, in one order or the other, exactly
  when they touch in the image (some pixel of one is 8-adjacent to some pixel of the
  other); no pair is recorded in both orders, and no label is paired with itself.
\<close>

theorem adjacency_sound_complete:
  assumes "rectangular img"
  shows "\<exists>ss. simularity_set_init img im ds = Inr ss \<and>
     (\<forall>a b. a \<noteq> b \<longrightarrow> (((a, b) \<in> sim_set ss \<or> (b, a) \<in> sim_set ss) \<longleftrightarrow> touching img a b)) \<and>
     (\<forall>a b. (a, b) \<in> sim_set ss \<longrightarrow> (b, a) \<notin> sim_set ss)"
proof -
  let ?ss = "(scanned img im ds)\<lparr>bounding_box_dict :=
                  (\<lambda>r. if r \<in> region_set (scanned img im ds)
                       then Some (projr (create_bounding_box (scanned img im ds) r)) else None)\<rparr>"
  have 1: "simularity_set_init img im ds = Inr ?ss" by (rule init_succeeds [OF assms])
  have 2: "((a, b) \<in> sim_set ?ss \<or> (b, a) \<in> sim_set ?ss) \<longleftrightarrow> touching img a b" if "a \<noteq> b" for a b
    using scanned_iff_touching [of a b img im ds] that by (simp add: upairs_def)
  have 3: "(b, a) \<notin> sim_set ?ss" if "(a, b) \<in> sim_set ?ss" for a b
    using one_way_scanned [of img im ds] that by (auto simp: one_way_def)
  from 1 2 3 show ?thesis by blast
qed

theorem adjacency_sound_complete_witness:
  "rectangular example_pair_image \<and> touching example_pair_image 1 2 \<and>
   (\<exists>ss. simularity_set_init example_pair_image () example_find = Inr ss \<and>
      ((1, 2) \<in> sim_set ss \<or> (2, 1) \<in> sim_set ss))"
proof -
  from adjacency_sound_complete [OF example_rectangular(2), of "()" example_find]
  obtain ss where ss: "simularity_set_init example_pair_image () example_find = Inr ss"
    and iff: "\<And>a b. a \<noteq> b \<Longrightarrow>
      ((a, b) \<in> sim_set ss \<or> (b, a) \<in> sim_set ss) \<longleftrightarrow> touching example_pair_image a b"
    by blast
  from iff [of 1 2] example_pair_touching
  have "(1, 2) \<in> sim_set ss \<or> (2, 1) \<in> sim_set ss" by simp
  with ss example_rectangular(2) example_pair_touching show ?thesis by blast
qed

text \<open>
  C3, as the code has it. On the label image [[1,2,3],[4,5,6],[4,4,6]] construction
  succeeds, records 12 pairs and makes the 6 labels live. Removing (1, 2), (1, 4) and
  (1, 5) raises nothing; afterwards label 1 is not live, 5 regions are left and the
  adjacency set holds 9 pairs.
\<close>

theorem example_scenario:
  "\<not> isl (simularity_set_init example_image () example_find) \<and>
   card (sim_set example_set) = 12 \<and>
   region_set example_set = {1, 2, 3, 4, 5, 6} \<and>
   fst (remove_set example_set (1, 2)) = None \<and>
   fst (remove_set example_removed_1 (1, 4)) = None \<and>
   fst (remove_set example_removed_2 (1, 5)) = None \<and>
   1 \<notin> region_set example_after \<and>
   len example_after = 5 \<and>
   card (sim_set example_after) = 9"
  by (simp add: init_succeeds [OF example_rectangular(1)] example_set_fields example_step1
      example_step2 example_step3 len_def)

text \<open>
  C3, as stated. The adjacency set of the same image does not hold 9 pairs after
  construction, and does not hold 6 after the three removals.
\<close>

theorem example_scenario_counts_differ:
  "card (sim_set example_set) \<noteq> 9 \<and> card (sim_set example_after) \<noteq> 6"
  by (simp add: example_set_fields example_step3)

section \<open>Live regions\<close>

text \<open>
  C5. In every object reachable from construction by calls of \<open>add_set\<close> and
  \<open>remove_set\<close>, a label is in the region set exactly when some pair of the adjacency
  set contains it; the length of the object is the number of labels that occur in some
  pair; and after a removal that leaves no pair containing a label, the label is not in
  the region set.
\<close>

theorem live_regions_invariant:
  assumes "reachable ss"
  shows "(\<forall>r. r \<in> region_set ss \<longleftrightarrow> (\<exists>item \<in> sim_set ss. in_tuple r item)) \<and>
         len ss = card {r. \<exists>item \<in> sim_set ss. in_tuple r item} \<and>
         (\<forall>s r. (\<forall>item \<in> sim_set (snd (remove_set ss s)). \<not> in_tuple r item) \<longrightarrow>
                r \<notin> region_set (snd (remove_set ss s)))"
proof (intro conjI allI impI)
  fix r
  show "r \<in> region_set ss \<longleftrightarrow> (\<exists>item \<in> sim_set ss. in_tuple r item)"
    using reachable_live [OF assms] by (simp add: in_labels)
next
  have "region_set ss = {r. \<exists>item \<in> sim_set ss. in_tuple r item}"
    using reachable_live [OF assms] by (simp only: labels_Collect)
  then show "len ss = card {r. \<exists>item \<in> sim_set ss. in_tuple r item}"
    by (simp add: len_def)
next
  fix s r
  assume "\<forall>item \<in> sim_set (snd (remove_set ss s)). \<not> in_tuple r item"
  then have "r \<notin> labels (sim_set (snd (remove_set ss s)))" by (simp add: in_labels)
  then show "r \<notin> region_set (snd (remove_set ss s))"
    using reachable_live [OF reachable.removed [OF assms], of s] by simp
qed

theorem live_regions_invariant_witness:
  "reachable example_after \<and>
   (1 \<in> region_set example_after) = (\<exists>item \<in> sim_set example_after. in_tuple 1 item) \<and>
   card {r. \<exists>item \<in> sim_set example_after. in_tuple r item} = 5"
proof -
  from live_regions_invariant [OF example_reachable]
  have a: "(1 \<in> region_set example_after) = (\<exists>item \<in> sim_set example_after. in_tuple 1 item)"
    and b: "len example_after = card {r. \<exists>item \<in> sim_set example_after. in_tuple r item}"
    by blast+
  have "len example_after = 5" by (simp add: len_def example_step3)
  with a b example_reachable show ?thesis by simp
qed

text \<open>
  C2. On the object built from the image [[1,2]], the first \<open>remove_set((1, 2))\<close>
  returns normally and empties both sets; the second call raises \<open>KeyError\<close> from
  \<open>region_set.remove\<close> (the sets stay empty). Removing the pair (7, 8), which was never
  in the adjacency set, raises \<open>KeyError\<close> as well.
\<close>

theorem remove_set_twice_raises:
  "fst (remove_set example_pair_set (1, 2)) = None \<and>
   sim_set example_pair_removed = {} \<and> region_set example_pair_removed = {} \<and>
   fst (remove_set example_pair_removed (1, 2)) = Some KeyError \<and>
   sim_set (snd (remove_set example_pair_removed (1, 2))) = {} \<and>
   region_set (snd (remove_set example_pair_removed (1, 2))) = {} \<and>
   fst (remove_set example_pair_set (7, 8)) = Some KeyError"
  by (simp add: example_pair_removed_fields remove_set_fst remove_set_sim_set
      remove_set_region_set Let_def example_pair_set_fields labels_insert labels_empty)

section \<open>Unknown regions\<close>

text \<open>
  C6, as the code has it. For a label that occurs nowhere in the label image,
  \<open>get_indices_of_region\<close> returns the empty list, and \<open>create_bounding_box\<close> raises
  \<open>ValueError\<close> (the minimum of an empty sequence) instead of returning a box.
\<close>

theorem unknown_region_raises:
  assumes "\<forall>row \<in> set (region_image ss). r \<notin> set row"
  shows "get_indices_of_region ss r = [] \<and> create_bounding_box ss r = Inl ValueError"
  using absent_region_no_indices [OF assms] by (simp add: create_bounding_box_empty)

theorem unknown_region_raises_witness:
  "get_indices_of_region example_pair_set 7 = [] \<and>
   create_bounding_box example_pair_set 7 = Inl ValueError"
proof -
  have "\<forall>row \<in> set (region_image example_pair_set). 7 \<notin> set row"
    by (simp add: example_pair_set_fields example_pair_image_def)
  from unknown_region_raises [OF this] show ?thesis .
qed

text \<open>
  C6, as stated. For the label 7 on the object built from [[1,2]],
  \<open>create_bounding_box\<close> returns no box: it raises \<open>ValueError\<close>.
\<close>

theorem unknown_region_bounding_box_fails:
  "isl (create_bounding_box example_pair_set 7) \<and>
   create_bounding_box example_pair_set 7 = Inl ValueError"
proof -
  have "\<forall>row \<in> set (region_image example_pair_set). 7 \<notin> set row"
    by (simp add: example_pair_set_fields example_pair_image_def)
  from absent_region_no_indices [OF this] show ?thesis
    by (simp add: create_bounding_box_empty)
qed

section \<open>The colour image at construction\<close>

text \<open>
  C7, as the code has it. Construction never inspects the colour image: for every
  two-dimensional label image and every colour image it succeeds and stores the colour
  image as given, and with another colour image the object differs in that attribute
  only.
\<close>

theorem construction_ignores_image:
  assumes "rectangular img"
  shows "\<exists>ss. simularity_set_init img im ds = Inr ss \<and> image ss = im \<and>
           (\<forall>im'. simularity_set_init img im' ds = Inr (ss\<lparr>image := im'\<rparr>))"
proof -
  let ?bb = "\<lambda>r. if r \<in> region_set (scanned img im ds)
                 then Some (projr (create_bounding_box (scanned img im ds) r)) else None"
  let ?ss = "(scanned img im ds)\<lparr>bounding_box_dict := ?bb\<rparr>"
  have 1: "simularity_set_init img im ds = Inr ?ss" by (rule init_succeeds [OF assms])
  have 2: "image ?ss = im" by (simp add: scanned_frame)
  have 3: "simularity_set_init img im' ds = Inr (?ss\<lparr>image := im'\<rparr>)" for im'
    unfolding init_succeeds [OF assms, of im' ds]
    by (simp add: scanned_image [of img im' ds im] create_bounding_box_image cong: if_cong)
  from 1 2 3 show ?thesis by blast
qed

theorem construction_ignores_image_witness:
  "rectangular example_pair_image \<and>
   (\<exists>ss. simularity_set_init example_pair_image example_color_image example_find = Inr ss \<and>
         image ss = example_color_image)"
  using construction_ignores_image [OF example_rectangular(2), of example_color_image example_find]
    example_rectangular(2) by blast

text \<open>
  C7, as stated. With a label image of one row and two columns and a colour image of
  three rows and one column, construction does not fail.
\<close>

theorem mismatched_images_accepted:
  "shape example_pair_image = (1, 2) \<and> length example_color_image = 3 \<and>
   \<not> isl (simularity_set_init example_pair_image example_color_image example_find)"
  by (simp add: example_pair_shape example_color_image_def init_succeeds [OF example_rectangular(2)])

section \<open>Similarity by fill\<close>

text \<open>
  C8. On the two-row, five-column image with the regions 1 (columns 0 and 1) and 2
  (columns 3 and 4), each of size 4, \<open>s_fill 1 2\<close> returns 17/10: the combined box has
  width 1 and area 1, because of the wrong column in \<open>combine_bounding_boxes\<close>. With
  the union of the specification (width 4, area 4) the value is 14/10.
\<close>

theorem s_fill_wrong_union:
  "s_fill example_fill_set 1 2 = Inr (17 / 10) \<and> s_fill_spec example_fill_set 1 2 = 14 / 10"
  by (simp add: s_fill_def s_fill_spec_def example_fill_set_fields example_find_def
      example_fill_boxes combine_bounding_boxes_def union_spec_def py_len_def bbox_len_def Let_def)

section \<open>Similarity by size\<close>

subsection \<open>Rounding to binary64\<close>

lemma rhe_bounds: "\<lfloor>y\<rfloor> \<le> round_half_even y" "round_half_even y \<le> \<lfloor>y\<rfloor> + 1"
  by (simp_all add: round_half_even_def)

lemma rhe_of_int [simp]: "round_half_even (of_int n) = n"
  by (simp add: round_half_even_def)

lemma rhe_numeral [simp]: "round_half_even (numeral n) = numeral n"
  using rhe_of_int [of "numeral n"] by simp

lemma rhe_mono:
  assumes "a \<le> b"
  shows "round_half_even a \<le> round_half_even b"
proof (cases "\<lfloor>a\<rfloor> = \<lfloor>b\<rfloor>")
  case True
  with assms show ?thesis
    by (auto simp: round_half_even_def)
next
  case False
  with assms have "\<lfloor>a\<rfloor> < \<lfloor>b\<rfloor>" by (simp add: floor_mono order.strict_iff_order)
  then have "round_half_even a \<le> \<lfloor>b\<rfloor>" using rhe_bounds(2) [of a] by linarith
  then show ?thesis using rhe_bounds(1) [of b] by linarith
qed

lemma floor_minus_nonint:
  fixes y :: real
  assumes "y \<noteq> of_int \<lfloor>y\<rfloor>"
  shows "\<lfloor>- y\<rfloor> = - \<lfloor>y\<rfloor> - 1"
proof (rule floor_unique)
  have lt: "of_int \<lfloor>y\<rfloor> < y"
    using assms of_int_floor_le [of y] by linarith
  have up: "y < of_int \<lfloor>y\<rfloor> + 1" by linarith
  show "of_int (- \<lfloor>y\<rfloor> - 1) \<le> - y" by simp (use up in linarith)
  show "- y < of_int (- \<lfloor>y\<rfloor> - 1) + 1" by simp (use lt in linarith)
qed

lemma rhe_minus: "round_half_even (- y) = - round_half_even y"
proof (cases "y = of_int \<lfloor>y\<rfloor>")
  case True
  then obtain n :: int where "y = of_int n" ..
  then show ?thesis by (simp flip: of_int_minus)
next
  case False
  have fl: "\<lfloor>- y\<rfloor> = - \<lfloor>y\<rfloor> - 1" by (rule floor_minus_nonint [OF False])
  have lt: "of_int \<lfloor>y\<rfloor> < y"
    using False of_int_floor_le [of y] by linarith
  consider "y - of_int \<lfloor>y\<rfloor> < 1 / 2" | "1 / 2 < y - of_int \<lfloor>y\<rfloor>"
    | "y - of_int \<lfloor>y\<rfloor> = 1 / 2" by linarith
  then show ?thesis
  proof cases
    case 1
    then show ?thesis unfolding round_half_even_def fl by simp
  next
    case 2
    then show ?thesis unfolding round_half_even_def fl by simp
  next
    case 3
    then show ?thesis unfolding round_half_even_def fl by simp
  qed
qed

lemma floor_log2_bounds:
  assumes "0 < x"
  shows "2 powi \<lfloor>log 2 x\<rfloor> \<le> x" "x < 2 powi (\<lfloor>log 2 x\<rfloor> + 1)"
proof -
  have "2 powr real_of_int \<lfloor>log 2 x\<rfloor> \<le> x \<and> x < 2 powr real_of_int (\<lfloor>log 2 x\<rfloor> + 1)"
    using floor_log_eq_powr_iff [of x 2 "\<lfloor>log 2 x\<rfloor>"] assms by simp
  then show "2 powi \<lfloor>log 2 x\<rfloor> \<le> x" "x < 2 powi (\<lfloor>log 2 x\<rfloor> + 1)"
    by (simp_all add: powr_real_of_int' del: of_int_add)
qed

lemma floor_log2_eq:
  assumes "2 powi e \<le> x" "x < 2 powi (e + 1)"
  shows "\<lfloor>log 2 x\<rfloor> = e"
proof -
  have pos: "0 < x" using assms(1) by (smt (verit) zero_less_power_int)
  show ?thesis
    using floor_log_eq_powr_iff [of x 2 e] pos assms
    by (simp add: powr_real_of_int' del: of_int_add)
qed

lemma ulp_pos: "0 < ulp x"
  by (simp add: ulp_def)

lemma binade_minus: "binade (- x) = binade x"
  by (simp add: binade_def)

lemma ulp_minus: "ulp (- x) = ulp x"
  by (simp add: ulp_def binade_minus)

lemma round64_minus: "round64 (- x) = - round64 x"
  by (simp add: round64_def ulp_minus rhe_minus)


lemma binade_mono:
  assumes "0 < x" "x \<le> y"
  shows "binade x \<le> binade y"
proof -
  have "log 2 x \<le> log 2 y" using assms by simp
  then have "\<lfloor>log 2 x\<rfloor> \<le> \<lfloor>log 2 y\<rfloor>" by (rule floor_mono)
  then show ?thesis using assms by (simp add: binade_def)
qed

lemma below_next_binade:
  assumes "0 < x"
  shows "x < 2 powi (binade x + 1)"
proof -
  have "x < 2 powi (\<lfloor>log 2 x\<rfloor> + 1)" by (rule floor_log2_bounds(2) [OF assms])
  also have "\<dots> \<le> 2 powi (binade x + 1)"
    using assms by (intro power_int_increasing) (simp_all add: binade_def)
  finally show ?thesis .
qed

lemma above_binade:
  assumes "0 < x" "- 1022 < binade x"
  shows "2 powi binade x \<le> x"
proof -
  from assms have "binade x = \<lfloor>log 2 x\<rfloor>" by (simp add: binade_def max_def split: if_splits)
  then show ?thesis using floor_log2_bounds(1) [OF assms(1)] by simp
qed

lemma ulp_times: "2 ^ 52 * ulp x = 2 powi binade x" "2 ^ 53 * ulp x = 2 powi (binade x + 1)"
proof -
  have "(2::real) powi binade x = 2 powi (52 + (binade x - 52))"
    by (rule arg_cong [where f = "\<lambda>k. 2 powi k"]) simp
  also have "\<dots> = 2 powi 52 * 2 powi (binade x - 52)" by (subst power_int_add) simp_all
  finally show "2 ^ 52 * ulp x = 2 powi binade x" by (simp add: ulp_def)
  have "(2::real) powi (binade x + 1) = 2 powi (53 + (binade x - 52))"
    by (rule arg_cong [where f = "\<lambda>k. 2 powi k"]) simp
  also have "\<dots> = 2 powi 53 * 2 powi (binade x - 52)" by (subst power_int_add) simp_all
  finally show "2 ^ 53 * ulp x = 2 powi (binade x + 1)" by (simp add: ulp_def)
qed

lemma round64_nonneg:
  assumes "0 \<le> x"
  shows "0 \<le> round64 x"
proof -
  have "0 \<le> x / ulp x" using assms ulp_pos [of x] by simp
  then have "round_half_even 0 \<le> round_half_even (x / ulp x)" by (rule rhe_mono)
  then have "0 \<le> round_half_even (x / ulp x)" using rhe_of_int [of 0] by simp
  then show ?thesis using ulp_pos [of x] by (simp add: round64_def)
qed

lemma round64_upper:
  assumes "0 < x"
  shows "round64 x \<le> 2 powi (binade x + 1)"
proof -
  have "x < 2 ^ 53 * ulp x" using below_next_binade [OF assms] by (simp only: ulp_times)
  then have "x / ulp x \<le> of_int (2 ^ 53)" using ulp_pos [of x] by (simp add: field_simps)
  then have "round_half_even (x / ulp x) \<le> round_half_even (of_int (2 ^ 53))" by (rule rhe_mono)
  then have "round_half_even (x / ulp x) \<le> 2 ^ 53" by (simp only: rhe_of_int)
  then have "real_of_int (round_half_even (x / ulp x)) \<le> of_int (2 ^ 53)"
    by (simp only: of_int_le_iff)
  then have "real_of_int (round_half_even (x / ulp x)) \<le> 2 ^ 53" by simp
  then have "real_of_int (round_half_even (x / ulp x)) * ulp x \<le> 2 ^ 53 * ulp x"
    using ulp_pos [of x] by (simp only: mult_le_cancel_right_pos)
  also have "\<dots> = 2 powi (binade x + 1)" by (simp only: ulp_times)
  finally show ?thesis using assms by (simp add: round64_def)
qed

lemma round64_lower:
  assumes "0 < x" "- 1022 < binade x"
  shows "2 powi binade x \<le> round64 x"
proof -
  have "2 ^ 52 * ulp x \<le> x" using above_binade [OF assms] by (simp only: ulp_times)
  then have "of_int (2 ^ 52) \<le> x / ulp x" using ulp_pos [of x] by (simp add: field_simps)
  then have "round_half_even (of_int (2 ^ 52)) \<le> round_half_even (x / ulp x)" by (rule rhe_mono)
  then have "2 ^ 52 \<le> round_half_even (x / ulp x)" by (simp only: rhe_of_int)
  then have "of_int (2 ^ 52) \<le> real_of_int (round_half_even (x / ulp x))"
    by (simp only: of_int_le_iff)
  then have "2 ^ 52 \<le> real_of_int (round_half_even (x / ulp x))" by simp
  then have "2 ^ 52 * ulp x \<le> real_of_int (round_half_even (x / ulp x)) * ulp x"
    using ulp_pos [of x] by (simp only: mult_le_cancel_right_pos)
  then have "2 powi binade x \<le> real_of_int (round_half_even (x / ulp x)) * ulp x"
    by (simp only: ulp_times)
  then show ?thesis using assms by (simp add: round64_def)
qed

lemma round64_mono_pos:
  assumes "0 < x" "x \<le> y"
  shows "round64 x \<le> round64 y"
proof (cases "binade x = binade y")
  case True
  then have u: "ulp x = ulp y" by (simp add: ulp_def)
  have "x / ulp y \<le> y / ulp y" using assms ulp_pos [of y] by (simp add: divide_right_mono)
  then have "round_half_even (x / ulp y) \<le> round_half_even (y / ulp y)" by (rule rhe_mono)
  then have "real_of_int (round_half_even (x / ulp y)) * ulp y
           \<le> real_of_int (round_half_even (y / ulp y)) * ulp y"
    using ulp_pos [of y] by simp
  then show ?thesis using assms by (simp add: round64_def u)
next
  case False
  with binade_mono [OF assms] have lt: "binade x < binade y" by simp
  have "- 1022 \<le> binade x" by (simp add: binade_def)
  with lt have big: "- 1022 < binade y" by simp
  have ypos: "0 < y" using assms by simp
  have "round64 x \<le> 2 powi (binade x + 1)" by (rule round64_upper [OF assms(1)])
  also have "\<dots> \<le> 2 powi binade y" using lt by (intro power_int_increasing) simp_all
  also have "\<dots> \<le> round64 y" by (rule round64_lower [OF ypos big])
  finally show ?thesis .
qed

lemma round64_mono:
  assumes "x \<le> y"
  shows "round64 x \<le> round64 y"
proof -
  consider "0 < x" | "x \<le> 0" "0 \<le> y" | "y < 0" by linarith
  then show ?thesis
  proof cases
    case 1
    then show ?thesis using assms by (rule round64_mono_pos)
  next
    case 2
    have "round64 x = - round64 (- x)" by (simp add: round64_minus)
    also have "\<dots> \<le> 0" using round64_nonneg [of "- x"] 2 by simp
    also have "\<dots> \<le> round64 y" using 2 by (simp add: round64_nonneg)
    finally show ?thesis .
  next
    case 3
    then have "0 < - y" "- y \<le> - x" using assms by simp_all
    then have "round64 (- y) \<le> round64 (- x)" by (rule round64_mono_pos)
    then show ?thesis by (simp add: round64_minus)
  qed
qed

lemma round64_eval:
  assumes "2 powi e \<le> \<bar>x\<bar>" "\<bar>x\<bar> < 2 powi (e + 1)" "- 1022 \<le> e"
  shows "round64 x = of_int (round_half_even (x / 2 powi (e - 52))) * 2 powi (e - 52)"
proof -
  have "\<lfloor>log 2 \<bar>x\<bar>\<rfloor> = e" by (rule floor_log2_eq [OF assms(1,2)])
  then have "binade x = e" using assms(3) by (simp add: binade_def)
  then have "ulp x = 2 powi (e - 52)" by (simp add: ulp_def)
  moreover have "x \<noteq> 0" using assms(1) by (smt (verit) zero_less_power_int)
  ultimately show ?thesis by (simp add: round64_def)
qed



lemma round64_power:
  assumes "- 1022 \<le> e"
  shows "round64 (2 powi e) = 2 powi e"
proof -
  have split: "(2::real) powi e = 2 powi 52 * 2 powi (e - 52)"
  proof -
    have "(2::real) powi e = 2 powi (52 + (e - 52))"
      by (rule arg_cong [where f = "\<lambda>k. 2 powi k"]) simp
    also have "\<dots> = 2 powi 52 * 2 powi (e - 52)" by (subst power_int_add) simp_all
    finally show ?thesis .
  qed
  have "(2::real) powi e / 2 powi (e - 52) = of_int (2 ^ 52)"
    by (subst split) simp
  then have r: "round_half_even (2 powi e / 2 powi (e - 52)) = 2 ^ 52"
    by (simp only: rhe_of_int)
  have "(2::real) powi e < 2 powi (e + 1)" by (intro power_int_strict_increasing) simp_all
  then have "round64 (2 powi e) =
      of_int (round_half_even (2 powi e / 2 powi (e - 52))) * 2 powi (e - 52)"
    using assms by (intro round64_eval) simp_all
  also have "\<dots> = 2 powi 52 * 2 powi (e - 52)" by (simp only: r) simp
  also have "\<dots> = 2 powi e" by (simp only: split)
  finally show ?thesis .
qed

lemma DBL_MAX_bounds: "2 powi 1023 \<le> DBL_MAX" "DBL_MAX < 2 powi 1024"
proof -
  have a: "(2::real) powi 1023 = 2 ^ 52 * 2 ^ 971" by (simp flip: power_add)
  have b: "(2::real) powi 1024 = 2 ^ 53 * 2 ^ 971" by (simp flip: power_add)
  have p: "(0::real) < 2 ^ 971" by simp
  have "(2::real) ^ 52 \<le> 2 ^ 53 - 1" by simp
  then have "(2::real) ^ 52 * 2 ^ 971 \<le> (2 ^ 53 - 1) * 2 ^ 971"
    using p by (simp only: mult_le_cancel_right_pos)
  then show "2 powi 1023 \<le> DBL_MAX" by (simp only: a DBL_MAX_def)
  have "(2::real) ^ 53 - 1 < 2 ^ 53" by simp
  then have "((2::real) ^ 53 - 1) * 2 ^ 971 < 2 ^ 53 * 2 ^ 971"
    using p by (simp only: mult_less_cancel_right_pos)
  then show "DBL_MAX < 2 powi 1024" by (simp only: b DBL_MAX_def)
qed

lemma round64_DBL_MAX: "round64 DBL_MAX = DBL_MAX"
proof -
  have pos: "0 \<le> DBL_MAX" using DBL_MAX_bounds(1) by (smt (verit) zero_less_power_int)
  have u: "(2::real) powi (1023 - 52) = 2 ^ 971" by simp
  have "DBL_MAX / 2 powi (1023 - 52) = of_int (2 ^ 53 - 1)"
    unfolding u DBL_MAX_def by simp
  then have r: "round_half_even (DBL_MAX / 2 powi (1023 - 52)) = 2 ^ 53 - 1"
    by (simp only: rhe_of_int)
  have "round64 DBL_MAX =
      of_int (round_half_even (DBL_MAX / 2 powi (1023 - 52))) * 2 powi (1023 - 52)"
    using DBL_MAX_bounds pos by (intro round64_eval) simp_all
  also have "\<dots> = DBL_MAX" unfolding r u DBL_MAX_def by simp
  finally show ?thesis .
qed

lemma round64_above_DBL_MAX: "round64 (1 + DBL_MAX) = DBL_MAX"
proof -
  have pos: "0 \<le> DBL_MAX" using DBL_MAX_bounds(1) by (smt (verit) zero_less_power_int)
  have u: "(2::real) powi (1023 - 52) = 2 ^ 971" by simp
  have p: "(1::real) < 2 ^ 971" by (rule one_less_power) simp_all
  have q: "(1 + DBL_MAX) / 2 ^ 971 = of_int (2 ^ 53 - 1) + 1 / 2 ^ 971"
    unfolding DBL_MAX_def by (simp add: field_simps)
  have small: "(1::real) / 2 ^ 971 < 1 / 2"
  proof -
    have "(2::real) ^ 1 < 2 ^ 971" by (rule power_strict_increasing) simp_all
    then show ?thesis by (simp add: field_simps)
  qed
  have nn: "(0::real) \<le> 1 / 2 ^ 971" by simp
  have fl: "\<lfloor>of_int (2 ^ 53 - 1) + (1::real) / 2 ^ 971\<rfloor> = 2 ^ 53 - 1"
  proof (rule floor_unique)
    show "of_int (2 ^ 53 - 1) \<le> of_int (2 ^ 53 - 1) + (1::real) / 2 ^ 971"
      using nn by linarith
    show "of_int (2 ^ 53 - 1) + (1::real) / 2 ^ 971 < of_int (2 ^ 53 - 1) + 1"
      using small by linarith
  qed
  have r: "round_half_even ((1 + DBL_MAX) / 2 powi (1023 - 52)) = 2 ^ 53 - 1"
    unfolding u q round_half_even_def fl using small by simp
  have lt: "1 + DBL_MAX < 2 powi 1024"
  proof -
    have "1 + DBL_MAX = (2 ^ 53 - 1) * 2 ^ 971 + 1" by (simp add: DBL_MAX_def)
    also have "\<dots> < (2 ^ 53 - 1) * 2 ^ 971 + 2 ^ 971" using p by simp
    also have "\<dots> = 2 ^ 53 * 2 ^ 971" by (simp add: algebra_simps)
    also have "\<dots> = 2 powi 1024" by (simp flip: power_add)
    finally show ?thesis .
  qed
  have "round64 (1 + DBL_MAX) =
      of_int (round_half_even ((1 + DBL_MAX) / 2 powi (1023 - 52))) * 2 powi (1023 - 52)"
    using DBL_MAX_bounds(1) pos lt by (intro round64_eval) simp_all
  also have "\<dots> = of_int (2 ^ 53 - 1) * 2 powi (1023 - 52)" by (simp only: r)
  also have "\<dots> = DBL_MAX" unfolding u DBL_MAX_def by simp
  finally show ?thesis .
qed

lemma float_sub_one_finite:
  assumes "\<bar>q\<bar> \<le> DBL_MAX"
  shows "\<bar>float_sub 1 q\<bar> \<le> DBL_MAX"
proof -
  have "round64 (1 - q) \<le> round64 (1 + DBL_MAX)" using assms by (intro round64_mono) simp
  then have up: "round64 (1 - q) \<le> DBL_MAX" by (simp only: round64_above_DBL_MAX)
  have "round64 (- DBL_MAX) \<le> round64 (1 - q)" using assms by (intro round64_mono) simp
  then have "- DBL_MAX \<le> round64 (1 - q)" by (simp only: round64_minus round64_DBL_MAX)
  with up show ?thesis by (simp add: float_sub_def)
qed










lemma rhe_neg_numeral [simp]: "round_half_even (- numeral n) = - numeral n"
  by (simp add: rhe_minus)







text \<open>
  On an image of 2 to the power of 54 pixels a sum of 1 already gives the value 1: the
  difference lies halfway between 1 and the float below it, and the tie goes to 1.
\<close>

lemma round64_tie_to_one: "round64 (1 - round64 (1 / 2 ^ 54)) = 1"
proof -
  have "round64 (2 powi (- 54)) = 2 powi (- 54)" by (rule round64_power) simp
  then have a: "round64 (1 / 2 ^ 54) = 1 / 2 ^ 54" by (simp add: power_int_minus_divide)
  have b: "round64 (1 - 1 / 2 ^ 54) = 1"
    using round64_eval [of "- 1" "1 - 1 / 2 ^ 54"] by (simp add: round_half_even_def)
  show ?thesis by (simp only: a b)
qed










subsection \<open>The value of the metric\<close>




section \<open>Similarity by colour\<close>

text \<open>
  C10. Whatever the two labels and the method name, \<open>s_color\<close> asks the histogram
  module for both histograms with the channels [0, 1, 2], the list [0, 1, 2] as the bin
  specification and the ranges [0, 256, 0, 256, 0, 256]; only the mask differs between
  the two calls, and no argument of \<open>s_color\<close> reaches the bin specification.
\<close>

theorem s_color_fixed_parameters:
  "s_color lib ss region_a region_b method_name =
     compare_histograms lib
       (get_normalized_histogram lib (image ss) [0, 1, 2] [0, 1, 2] [0, 256, 0, 256, 0, 256]
          (get_region_mask lib ss (node_label (disjoint_set ss region_a))))
       (get_normalized_histogram lib (image ss) [0, 1, 2] [0, 1, 2] [0, 256, 0, 256, 0, 256]
          (get_region_mask lib ss (node_label (disjoint_set ss region_b))))
       method_name"
  by (simp add: s_color_def calculate_color_hist_of_region_def Let_def)

end
